theory Spec2Isabelle
  imports Complex_Main
begin

section \<open>Floating-point values\<close>

text \<open>
  The library works on IEEE doubles.  They are modelled over exact arithmetic: a finite
  value is a real number, and the three special values are kept, since the indicator code
  relies on how they propagate (a missing observation is NaN, a division by zero is an
  infinity or NaN, and every comparison with NaN is false).  Rounding, overflow and the
  sign of zero are not modelled.
\<close>

datatype fl = Fin real | PInf | MInf | NaN

fun f_neg :: "fl \<Rightarrow> fl" where
  "f_neg (Fin a) = Fin (- a)"
| "f_neg PInf = MInf"
| "f_neg MInf = PInf"
| "f_neg NaN = NaN"

fun f_add :: "fl \<Rightarrow> fl \<Rightarrow> fl" where
  "f_add NaN _ = NaN"
| "f_add _ NaN = NaN"
| "f_add (Fin a) (Fin b) = Fin (a + b)"
| "f_add PInf MInf = NaN"
| "f_add MInf PInf = NaN"
| "f_add PInf _ = PInf"
| "f_add MInf _ = MInf"
| "f_add (Fin a) PInf = PInf"
| "f_add (Fin a) MInf = MInf"

definition f_sub :: "fl \<Rightarrow> fl \<Rightarrow> fl" where
  "f_sub a b = f_add a (f_neg b)"

text \<open>The sign of an infinite result; a zero factor or a zero numerator gives NaN.\<close>

definition signed_inf :: "real \<Rightarrow> fl" where
  "signed_inf a = (if a > 0 then PInf else if a < 0 then MInf else NaN)"

fun f_mul :: "fl \<Rightarrow> fl \<Rightarrow> fl" where
  "f_mul NaN _ = NaN"
| "f_mul _ NaN = NaN"
| "f_mul (Fin a) (Fin b) = Fin (a * b)"
| "f_mul (Fin a) PInf = signed_inf a"
| "f_mul (Fin a) MInf = signed_inf (- a)"
| "f_mul PInf (Fin b) = signed_inf b"
| "f_mul MInf (Fin b) = signed_inf (- b)"
| "f_mul PInf PInf = PInf"
| "f_mul MInf MInf = PInf"
| "f_mul PInf MInf = MInf"
| "f_mul MInf PInf = MInf"

text \<open>
  Division of arrays never raises: a nonzero value over zero is an infinity, zero over zero
  is NaN, a finite value over an infinity is zero.
\<close>

fun f_div :: "fl \<Rightarrow> fl \<Rightarrow> fl" where
  "f_div NaN _ = NaN"
| "f_div _ NaN = NaN"
| "f_div (Fin a) (Fin b) = (if b = 0 then signed_inf a else Fin (a / b))"
| "f_div (Fin a) PInf = Fin 0"
| "f_div (Fin a) MInf = Fin 0"
| "f_div PInf (Fin b) = (if b < 0 then MInf else PInf)"
| "f_div MInf (Fin b) = (if b < 0 then PInf else MInf)"
| "f_div PInf _ = NaN"
| "f_div MInf _ = NaN"

fun f_lt :: "fl \<Rightarrow> fl \<Rightarrow> bool" where
  "f_lt NaN _ = False"
| "f_lt _ NaN = False"
| "f_lt (Fin a) (Fin b) = (a < b)"
| "f_lt MInf MInf = False"
| "f_lt MInf _ = True"
| "f_lt PInf _ = False"
| "f_lt (Fin a) PInf = True"
| "f_lt (Fin a) MInf = False"

fun f_le :: "fl \<Rightarrow> fl \<Rightarrow> bool" where
  "f_le NaN _ = False"
| "f_le _ NaN = False"
| "f_le (Fin a) (Fin b) = (a \<le> b)"
| "f_le MInf _ = True"
| "f_le PInf PInf = True"
| "f_le PInf _ = False"
| "f_le (Fin a) PInf = True"
| "f_le (Fin a) MInf = False"

definition f_gt :: "fl \<Rightarrow> fl \<Rightarrow> bool" where
  "f_gt a b = f_lt b a"

definition f_ge :: "fl \<Rightarrow> fl \<Rightarrow> bool" where
  "f_ge a b = f_le b a"

definition is_nan :: "fl \<Rightarrow> bool" where
  "is_nan x = (x = NaN)"

section \<open>Errors\<close>

datatype error =
    ValueError string
  | KeyError string
  | IndexError

section \<open>Rolling windows\<close>

text \<open>
  \<^verbatim>\<open>Series.rolling(window=W).mean()\<close>.  The window must be an integer that is not
  negative.  Infinite inputs are turned into NaN before the aggregation.  The window of
  position \<open>i\<close> is \<open>[start i, end i)\<close> with \<open>end i = i + 1\<close> and
  \<open>start i = max (i + 1 - W) 0\<close>; \<open>min_periods\<close> defaults to the window.  The aggregation
  keeps a running sum and a count of the observations (the values that are not NaN): it is
  set up afresh when the windows do not overlap, and otherwise the values that leave the
  window are removed and the ones that enter are added.
\<close>

definition prep_values :: "fl list \<Rightarrow> real option list" where
  "prep_values vs = map (\<lambda>v. case v of Fin a \<Rightarrow> Some a | _ \<Rightarrow> None) vs"

definition win_start :: "nat \<Rightarrow> nat \<Rightarrow> nat" where
  "win_start W i = (i + 1) - W"

definition win_end :: "nat \<Rightarrow> nat" where
  "win_end i = i + 1"

fun add_mean :: "real option \<Rightarrow> int \<times> real \<Rightarrow> int \<times> real" where
  "add_mean (Some x) (nobs, sum_x) = (nobs + 1, sum_x + x)"
| "add_mean None (nobs, sum_x) = (nobs, sum_x)"

fun remove_mean :: "real option \<Rightarrow> int \<times> real \<Rightarrow> int \<times> real" where
  "remove_mean (Some x) (nobs, sum_x) = (nobs - 1, sum_x - x)"
| "remove_mean None (nobs, sum_x) = (nobs, sum_x)"

fun calc_mean :: "int \<Rightarrow> int \<times> real \<Rightarrow> fl" where
  "calc_mean minp (nobs, sum_x) =
     (if nobs \<ge> minp \<and> nobs > 0 then Fin (sum_x / real_of_int nobs) else NaN)"

fun roll_mean_loop ::
  "real option list \<Rightarrow> nat \<Rightarrow> int \<Rightarrow> nat list \<Rightarrow> int \<times> real \<Rightarrow> fl list" where
  "roll_mean_loop values W minp [] st = []"
| "roll_mean_loop values W minp (i # is) st =
     (let s = win_start W i; e = win_end i;
          st' = (if i = 0 \<or> s \<ge> win_end (i - 1)
                 then foldl (\<lambda>a j. add_mean (values ! j) a) (0, 0) [s..<e]
                 else let st1 = foldl (\<lambda>a j. remove_mean (values ! j) a) st
                                  [win_start W (i - 1)..<s]
                      in foldl (\<lambda>a j. add_mean (values ! j) a) st1 [win_end (i - 1)..<e])
      in calc_mean minp st' # roll_mean_loop values W minp is st')"

definition roll_mean :: "real option list \<Rightarrow> nat \<Rightarrow> int \<Rightarrow> fl list" where
  "roll_mean values W minp = roll_mean_loop values W minp [0..<length values] (0, 0)"

definition rolling_mean :: "fl list \<Rightarrow> int \<Rightarrow> error + fl list" where
  "rolling_mean vs window =
     (if window < 0 then Inl (ValueError ''window must be an integer 0 or greater'')
      else Inr (roll_mean (prep_values vs) (nat window) window))"

section \<open>Series operations\<close>

text \<open>
  A series of numbers is the list of its values.  \<^verbatim>\<open>shift(1)\<close> moves every value one
  place down and puts NaN first; \<^verbatim>\<open>where(cond, other)\<close> keeps a value where the condition
  holds and takes the other value elsewhere; the arithmetic operators work position by
  position.
\<close>

definition shift1 :: "fl list \<Rightarrow> fl list" where
  "shift1 xs = (if xs = [] then [] else NaN # butlast xs)"

definition diff :: "fl list \<Rightarrow> fl list" where
  "diff xs = map2 f_sub xs (shift1 xs)"

definition where_else :: "(fl \<Rightarrow> bool) \<Rightarrow> fl \<Rightarrow> fl list \<Rightarrow> fl list" where
  "where_else cond other xs = map (\<lambda>x. if cond x then x else other) xs"

text \<open>Forward fill: a NaN takes the last value before it that is not NaN.\<close>

fun ffill_loop :: "fl \<Rightarrow> fl list \<Rightarrow> fl list" where
  "ffill_loop prev [] = []"
| "ffill_loop prev (x # xs) =
     (if is_nan x then prev # ffill_loop prev xs else x # ffill_loop x xs)"

definition ffill :: "fl list \<Rightarrow> fl list" where
  "ffill xs = ffill_loop NaN xs"

text \<open>
  \<^verbatim>\<open>pct_change()\<close> with its defaults: the series is forward filled, divided by itself
  shifted by one, and one is subtracted.
\<close>

definition pct_change :: "fl list \<Rightarrow> fl list" where
  "pct_change xs =
     (let filled = ffill xs in map (\<lambda>q. f_sub q (Fin 1)) (map2 f_div filled (shift1 filled)))"

text \<open>
  \<^verbatim>\<open>cumprod()\<close> skips NaN: a NaN position stays NaN in the output and does not enter the
  running product.
\<close>

fun cumprod_loop :: "fl \<Rightarrow> fl list \<Rightarrow> fl list" where
  "cumprod_loop acc [] = []"
| "cumprod_loop acc (x # xs) =
     (if is_nan x then NaN # cumprod_loop acc xs
      else f_mul acc x # cumprod_loop (f_mul acc x) xs)"

definition cumprod :: "fl list \<Rightarrow> fl list" where
  "cumprod xs = cumprod_loop (Fin 1) xs"

section \<open>Exponentially weighted mean\<close>

text \<open>
  \<^verbatim>\<open>Series.ewm(span=S).mean()\<close> with its defaults \<^verbatim>\<open>adjust=True\<close>,
  \<^verbatim>\<open>ignore_na=False\<close>, \<^verbatim>\<open>min_periods=0\<close>.  The span must be at least one; the centre of
  mass is \<open>(S - 1) / 2\<close> and the smoothing factor is \<open>1 / (1 + com)\<close>.  The loop keeps the
  current weighted mean and the total weight \<open>old_wt\<close> of the history; with
  \<^verbatim>\<open>adjust=True\<close> a new observation has weight one and the total weight grows.
\<close>

definition ewm_alpha :: "int \<Rightarrow> real" where
  "ewm_alpha spn = 1 / (1 + (real_of_int spn - 1) / 2)"

fun ewm_loop ::
  "real \<Rightarrow> real \<Rightarrow> bool \<Rightarrow> int \<Rightarrow> real option list \<Rightarrow> real option \<Rightarrow> real \<Rightarrow> int \<Rightarrow> fl list"
  where
  "ewm_loop old_wt_factor new_wt adjust minp [] weighted old_wt nobs = []"
| "ewm_loop old_wt_factor new_wt adjust minp (cur # vals) weighted old_wt nobs =
     (let nobs' = nobs + (if cur = None then 0 else 1);
          (weighted', old_wt') =
            (case weighted of
               Some w \<Rightarrow>
                 (let ow = old_wt * old_wt_factor in
                  case cur of
                    Some c \<Rightarrow>
                      ((if w \<noteq> c then Some ((ow * w + new_wt * c) / (ow + new_wt)) else Some w),
                       (if adjust then ow + new_wt else 1))
                  | None \<Rightarrow> (Some w, ow))
             | None \<Rightarrow> (cur, old_wt))
      in (case weighted' of Some w \<Rightarrow> (if nobs' \<ge> minp then Fin w else NaN) | None \<Rightarrow> NaN)
         # ewm_loop old_wt_factor new_wt adjust minp vals weighted' old_wt' nobs')"

definition ewm :: "real option list \<Rightarrow> real \<Rightarrow> bool \<Rightarrow> int \<Rightarrow> fl list" where
  "ewm vals alpha adjust minp =
     (case vals of
        [] \<Rightarrow> []
      | v # rest \<Rightarrow>
          (let nobs = (if v = None then 0 else 1)
           in (case v of Some w \<Rightarrow> (if nobs \<ge> minp then Fin w else NaN) | None \<Rightarrow> NaN)
              # ewm_loop (1 - alpha) (if adjust then 1 else alpha) adjust minp rest v 1 nobs))"

definition ewm_mean :: "fl list \<Rightarrow> int \<Rightarrow> error + fl list" where
  "ewm_mean vs spn =
     (if spn < 1 then Inl (ValueError ''span must satisfy: span >= 1'')
      else Inr (ewm (prep_values vs) (ewm_alpha spn) True 1))"

section \<open>Return calculator\<close>

definition simple_returns :: "fl list \<Rightarrow> fl list" where
  "simple_returns prices = pct_change prices"

definition cumulative_returns :: "fl list \<Rightarrow> fl list" where
  "cumulative_returns returns =
     map (\<lambda>v. f_sub v (Fin 1)) (cumprod (map (\<lambda>r. f_add (Fin 1) r) returns))"

section \<open>Technical indicators\<close>

definition sma :: "fl list \<Rightarrow> int \<Rightarrow> error + fl list" where
  "sma prices window = rolling_mean prices window"

definition ema :: "fl list \<Rightarrow> int \<Rightarrow> error + fl list" where
  "ema prices window = ewm_mean prices window"

text \<open>
  The two rolling means of \<^verbatim>\<open>rsi\<close>: of the positive deltas, and of the negated negative
  deltas.  A delta that is NaN (the first one) fails both conditions and counts as zero.
\<close>

definition rsi_gain :: "fl list \<Rightarrow> int \<Rightarrow> error + fl list" where
  "rsi_gain prices window =
     rolling_mean (where_else (\<lambda>d. f_gt d (Fin 0)) (Fin 0) (diff prices)) window"

definition rsi_loss :: "fl list \<Rightarrow> int \<Rightarrow> error + fl list" where
  "rsi_loss prices window =
     rolling_mean (map f_neg (where_else (\<lambda>d. f_lt d (Fin 0)) (Fin 0) (diff prices))) window"

definition rsi :: "fl list \<Rightarrow> int \<Rightarrow> error + fl list" where
  "rsi prices window =
     (case rsi_gain prices window of
        Inl e \<Rightarrow> Inl e
      | Inr gain \<Rightarrow>
          (case rsi_loss prices window of
             Inl e \<Rightarrow> Inl e
           | Inr loss \<Rightarrow>
               (let rs = map2 f_div gain loss
                in Inr (map (\<lambda>r. f_sub (Fin 100) (f_div (Fin 100) (f_add (Fin 1) r))) rs))))"

section \<open>Data frames\<close>

text \<open>
  A frame is its index (the timestamps of the rows) and its columns in order, each a
  name with one value for every row.  A time series record that is appended to a frame is
  a series: its name becomes the row label, its labels the column names.
\<close>

record frame =
  findex :: "int list"
  fcols :: "(string \<times> fl list) list"

record series =
  sname :: int
  sitems :: "(string \<times> fl) list"

definition wf_frame :: "frame \<Rightarrow> bool" where
  "wf_frame d = list_all (\<lambda>c. length (snd c) = length (findex d)) (fcols d)"

definition columns :: "frame \<Rightarrow> string list" where
  "columns d = map fst (fcols d)"

definition len_frame :: "frame \<Rightarrow> nat" where
  "len_frame d = length (findex d)"

definition getitem :: "frame \<Rightarrow> string \<Rightarrow> error + fl list" where
  "getitem d c = (case map_of (fcols d) c of None \<Rightarrow> Inl (KeyError c) | Some vs \<Rightarrow> Inr vs)"

text \<open>Access by position: a negative position counts from the end.\<close>

definition iloc :: "'a list \<Rightarrow> int \<Rightarrow> error + 'a" where
  "iloc xs i =
     (if 0 \<le> i \<and> i < int (length xs) then Inr (xs ! nat i)
      else if i < 0 \<and> - int (length xs) \<le> i then Inr (xs ! nat (int (length xs) + i))
      else Inl IndexError)"

definition py_range :: "int \<Rightarrow> int \<Rightarrow> int list" where
  "py_range a b = map (\<lambda>k. a + int k) [0..<nat (b - a)]"

definition tail :: "nat \<Rightarrow> frame \<Rightarrow> frame" where
  "tail n d =
     \<lparr>findex = drop (length (findex d) - n) (findex d),
      fcols = map (\<lambda>c. (fst c, drop (length (snd c) - n) (snd c))) (fcols d)\<rparr>"

definition to_frame_T :: "series \<Rightarrow> frame" where
  "to_frame_T r = \<lparr>findex = [sname r], fcols = map (\<lambda>kv. (fst kv, [snd kv])) (sitems r)\<rparr>"

text \<open>
  \<^verbatim>\<open>pd.concat([a, b])\<close> stacks the rows.  The columns are the union of both, in order
  of first appearance; a frame that has no such column contributes NaN.  An operand that is
  None is dropped.
\<close>

definition column_or_nan :: "frame \<Rightarrow> string \<Rightarrow> fl list" where
  "column_or_nan d c =
     (case map_of (fcols d) c of None \<Rightarrow> replicate (length (findex d)) NaN | Some vs \<Rightarrow> vs)"

definition concat_frames :: "frame \<Rightarrow> frame \<Rightarrow> frame" where
  "concat_frames a b =
     \<lparr>findex = findex a @ findex b,
      fcols = map (\<lambda>c. (c, column_or_nan a c @ column_or_nan b c))
                (columns a @ filter (\<lambda>c. c \<notin> set (columns a)) (columns b))\<rparr>"

definition pd_concat :: "frame option \<Rightarrow> frame \<Rightarrow> frame" where
  "pd_concat a b = (case a of None \<Rightarrow> b | Some d \<Rightarrow> concat_frames d b)"

section \<open>Signals and the base strategy\<close>

datatype SignalType = BUY | SELL | HOLD

record Signal =
  timestamp :: int
  symbol :: string
  signal_type :: SignalType
  strength :: fl
  price :: "fl option"
  metadata :: "(string \<times> string) list option"

record strategy =
  name :: string
  parameters :: "string \<rightharpoonup> int"
  signals :: "Signal list"
  data :: "frame option"
  initialized :: bool

text \<open>
  Every method takes the strategy and returns its result with the strategy after the call,
  so that what a method assigns to \<^verbatim>\<open>self\<close> is visible.  A result is an error (the
  exception raised) or a value.
\<close>

definition BaseStrategy_init :: "string \<Rightarrow> (string \<rightharpoonup> int) option \<Rightarrow> strategy" where
  "BaseStrategy_init nm params =
     \<lparr>name = nm, parameters = (case params of None \<Rightarrow> Map.empty | Some p \<Rightarrow> p),
      signals = [], data = None, initialized = False\<rparr>"

definition initialize :: "strategy \<Rightarrow> frame \<Rightarrow> unit \<times> strategy" where
  "initialize s d = ((), s\<lparr>data := Some d, initialized := True\<rparr>)"

definition get_parameter :: "strategy \<Rightarrow> string \<Rightarrow> int option \<Rightarrow> int option" where
  "get_parameter s key dflt = (case parameters s key of None \<Rightarrow> dflt | Some v \<Rightarrow> Some v)"

definition set_parameter :: "strategy \<Rightarrow> string \<Rightarrow> int \<Rightarrow> unit \<times> strategy" where
  "set_parameter s key v = ((), s\<lparr>parameters := (parameters s)(key \<mapsto> v)\<rparr>)"

definition validate_data :: "strategy \<Rightarrow> frame \<Rightarrow> (error + bool) \<times> strategy" where
  "validate_data s d =
     (let required_columns = [''Open'', ''High'', ''Low'', ''Close'', ''Volume'']
      in (Inr (list_all (\<lambda>col. col \<in> set (columns d)) required_columns), s))"

text \<open>
  \<^verbatim>\<open>update\<close> calls the \<^verbatim>\<open>generate_signals\<close> of the concrete strategy, which is a
  parameter here.  The bound series is assigned before that call, so it stays assigned when
  the call raises.
\<close>

definition update ::
  "(strategy \<Rightarrow> frame \<Rightarrow> (error + Signal list) \<times> strategy) \<Rightarrow> strategy \<Rightarrow> series
     \<Rightarrow> (error + Signal option) \<times> strategy" where
  "update gen s new_data =
     (if \<not> initialized s
      then (Inl (ValueError ''Strategy must be initialized before updating''), s)
      else
        let d = pd_concat (data s) (to_frame_T new_data);
            s1 = s\<lparr>data := Some d\<rparr>;
            (r, s2) = gen s1 (tail 1 d)
        in (case r of
              Inl e \<Rightarrow> (Inl e, s2)
            | Inr sigs \<Rightarrow> (Inr (if sigs \<noteq> [] then Some (hd sigs) else None), s2)))"

section \<open>Moving average crossover\<close>

definition MovingAverageCrossover_init :: "int \<Rightarrow> int \<Rightarrow> strategy" where
  "MovingAverageCrossover_init short_window long_window =
     BaseStrategy_init ''MA Crossover''
       (Some [''short_window'' \<mapsto> short_window, ''long_window'' \<mapsto> long_window])"

definition bind_err :: "error + 'a \<Rightarrow> ('a \<Rightarrow> error + 'b) \<Rightarrow> error + 'b" where
  "bind_err m f = (case m of Inl e \<Rightarrow> Inl e | Inr v \<Rightarrow> f v)"

text \<open>
  The body of the loop at position \<open>i\<close>: the signal that is appended there, if any.
  A comparison with NaN is false, so no signal comes from an average that is missing.
\<close>

definition signal_at :: "frame \<Rightarrow> fl list \<Rightarrow> fl list \<Rightarrow> int \<Rightarrow> error + Signal option" where
  "signal_at d short_ma long_ma i =
     bind_err (iloc short_ma i) (\<lambda>current_short.
     bind_err (iloc long_ma i) (\<lambda>current_long.
     bind_err (iloc short_ma (i - 1)) (\<lambda>prev_short.
     bind_err (iloc long_ma (i - 1)) (\<lambda>prev_long.
       if f_le prev_short prev_long \<and> f_gt current_short current_long then
         bind_err (iloc (findex d) i) (\<lambda>ts.
         bind_err (getitem d ''Close'') (\<lambda>close.
         bind_err (iloc close i) (\<lambda>p.
           Inr (Some \<lparr>timestamp = ts, symbol = ''AAPL'', signal_type = BUY,
                      strength = Fin 1, price = Some p, metadata = None\<rparr>))))
       else if f_ge prev_short prev_long \<and> f_lt current_short current_long then
         bind_err (iloc (findex d) i) (\<lambda>ts.
         bind_err (getitem d ''Close'') (\<lambda>close.
         bind_err (iloc close i) (\<lambda>p.
           Inr (Some \<lparr>timestamp = ts, symbol = ''AAPL'', signal_type = SELL,
                      strength = Fin 1, price = Some p, metadata = None\<rparr>))))
       else Inr None))))"

fun crossover_loop ::
  "frame \<Rightarrow> fl list \<Rightarrow> fl list \<Rightarrow> int list \<Rightarrow> Signal list \<Rightarrow> error + Signal list" where
  "crossover_loop d short_ma long_ma [] sigs = Inr sigs"
| "crossover_loop d short_ma long_ma (i # is) sigs =
     (case signal_at d short_ma long_ma i of
        Inl e \<Rightarrow> Inl e
      | Inr None \<Rightarrow> crossover_loop d short_ma long_ma is sigs
      | Inr (Some sg) \<Rightarrow> crossover_loop d short_ma long_ma is (sigs @ [sg]))"

text \<open>
  A parameter that is absent is read as None, and the rolling window rejects it as it
  rejects a negative window.
\<close>

definition window_arg :: "int option \<Rightarrow> error + int" where
  "window_arg w =
     (case w of None \<Rightarrow> Inl (ValueError ''window must be an integer 0 or greater'')
      | Some v \<Rightarrow> Inr v)"

definition generate_signals :: "strategy \<Rightarrow> frame \<Rightarrow> (error + Signal list) \<times> strategy" where
  "generate_signals s d =
     (let short_window = get_parameter s ''short_window'' None;
          long_window = get_parameter s ''long_window'' None
      in (bind_err (getitem d ''Close'') (\<lambda>close_s.
          bind_err (window_arg short_window) (\<lambda>sw.
          bind_err (sma close_s sw) (\<lambda>short_ma.
          bind_err (getitem d ''Close'') (\<lambda>close_l.
          bind_err (window_arg long_window) (\<lambda>lw.
          bind_err (sma close_l lw) (\<lambda>long_ma.
            crossover_loop d short_ma long_ma (py_range lw (int (len_frame d))) [])))))),
          s))"

section \<open>The contents of a window\<close>

text \<open>
  The number of observations and their sum over the positions \<open>a..<b\<close>: what the running
  count and sum of the rolling mean stand for.
\<close>

definition win_state :: "real option list \<Rightarrow> nat \<Rightarrow> nat \<Rightarrow> int \<times> real" where
  "win_state values a b =
     (\<Sum>j = a..<b. (case values ! j of Some x \<Rightarrow> 1 | None \<Rightarrow> 0),
      \<Sum>j = a..<b. (case values ! j of Some x \<Rightarrow> x | None \<Rightarrow> 0))"

section \<open>The crossover rule as specified\<close>

text \<open>
  What the specification asks for at position \<open>i\<close>: a Buy exactly when the short average
  was at most the long one at \<open>i - 1\<close> and is above it at \<open>i\<close>, a Sell exactly when it was
  at least the long one and is below it now; each with the timestamp and the Close price of
  \<open>i\<close> and strength one.  The two conditions are stated independently of each other.
\<close>

definition expected_signals_at :: "frame \<Rightarrow> fl list \<Rightarrow> fl list \<Rightarrow> fl list \<Rightarrow> nat \<Rightarrow> Signal list" where
  "expected_signals_at d close short_ma long_ma i =
     (if f_le (short_ma ! (i - 1)) (long_ma ! (i - 1)) \<and> f_gt (short_ma ! i) (long_ma ! i)
      then [\<lparr>timestamp = findex d ! i, symbol = ''AAPL'', signal_type = BUY,
              strength = Fin 1, price = Some (close ! i), metadata = None\<rparr>]
      else [])
     @ (if f_ge (short_ma ! (i - 1)) (long_ma ! (i - 1)) \<and> f_lt (short_ma ! i) (long_ma ! i)
        then [\<lparr>timestamp = findex d ! i, symbol = ''AAPL'', signal_type = SELL,
                strength = Fin 1, price = Some (close ! i), metadata = None\<rparr>]
        else [])"

section \<open>The exponential moving average as specified\<close>

text \<open>
  The reference recursion of the specification: smoothing factor \<open>\<alpha> = 2 / (S + 1)\<close>,
  \<open>output[0] = input[0]\<close> and \<open>output[i] = \<alpha> * input[i] + (1 - \<alpha>) * output[i-1]\<close>.
\<close>

fun ema_recursion :: "real \<Rightarrow> real \<Rightarrow> real list \<Rightarrow> real list" where
  "ema_recursion alpha prev [] = []"
| "ema_recursion alpha prev (x # xs) =
     (let y = alpha * x + (1 - alpha) * prev in y # ema_recursion alpha y xs)"

definition ema_reference :: "real list \<Rightarrow> int \<Rightarrow> real list" where
  "ema_reference xs S =
     (case xs of [] \<Rightarrow> [] | x # rest \<Rightarrow> x # ema_recursion (2 / (real_of_int S + 1)) x rest)"

text \<open>
  The weighted history: the inputs up to position \<open>i\<close> weighted by the powers of
  \<open>q = 1 - \<alpha>\<close>, divided by the sum of the weights.
\<close>

definition history_num :: "real \<Rightarrow> real list \<Rightarrow> nat \<Rightarrow> real" where
  "history_num q xs i = (\<Sum>j\<le>i. q ^ (i - j) * xs ! j)"

definition history_den :: "real \<Rightarrow> nat \<Rightarrow> real" where
  "history_den q i = (\<Sum>j\<le>i. q ^ (i - j))"

definition weighted_history :: "real \<Rightarrow> real list \<Rightarrow> nat \<Rightarrow> real" where
  "weighted_history q xs i = history_num q xs i / history_den q i"

section \<open>Gains and losses of a numeric series\<close>

text \<open>
  The series that enter the two rolling means of \<^verbatim>\<open>rsi\<close> when the prices are numbers: the
  positive part of every price change and the size of every negative one, with zero at the
  first position.
\<close>

definition gains :: "real list \<Rightarrow> real list" where
  "gains xs = (case xs of [] \<Rightarrow> []
     | x # rest \<Rightarrow> 0 # map (\<lambda>(a, b). if a - b > 0 then a - b else 0) (zip rest (x # rest)))"

definition losses :: "real list \<Rightarrow> real list" where
  "losses xs = (case xs of [] \<Rightarrow> []
     | x # rest \<Rightarrow> 0 # map (\<lambda>(a, b). if a - b < 0 then b - a else 0) (zip rest (x # rest)))"

section \<open>Example inputs\<close>

definition ex_frame :: frame where
  "ex_frame = \<lparr>findex = [100, 101, 102],
     fcols = [(''Close'', [Fin 10, Fin 9, Fin 11]), (''Volume'', [Fin 5, Fin 5, Fin 5])]\<rparr>"

definition ex_no_volume :: frame where
  "ex_no_volume = \<lparr>findex = [100, 101],
     fcols = [(''Open'', [Fin 1, Fin 2]), (''High'', [Fin 3, Fin 4]), (''Low'', [Fin 1, Fin 1]),
              (''Close'', [Fin 2, Fin 3])]\<rparr>"

definition ex_ohlcv :: frame where
  "ex_ohlcv = \<lparr>findex = [5, 3],
     fcols = [(''Open'', [Fin 1, NaN]), (''High'', [Fin 3, Fin (- 4)]), (''Low'', [Fin 1, Fin 1]),
              (''Close'', [Fin 2, Fin 3]), (''Volume'', [PInf, Fin 0])]\<rparr>"

definition ex_record :: series where
  "ex_record = \<lparr>sname = 103, sitems = [(''Close'', Fin 12), (''Open'', Fin 11)]\<rparr>"

definition ex_prices :: frame where
  "ex_prices = \<lparr>findex = [100, 101, 102, 103, 104, 105],
     fcols = [(''Close'', [Fin 10, Fin 10, Fin 9, Fin 11, Fin 13, Fin 8])]\<rparr>"

definition ex_other_strategy :: strategy where
  "ex_other_strategy =
     \<lparr>name = ''other'',
      parameters = [''short_window'' \<mapsto> 1, ''long_window'' \<mapsto> 2],
      signals = [\<lparr>timestamp = 7, symbol = ''AAPL'', signal_type = HOLD,
                  strength = Fin 1, price = None, metadata = None\<rparr>],
      data = Some ex_frame,
      initialized = True\<rparr>"

section \<open>Properties of the rolling mean\<close>

lemma add_mean_fold:
  "a \<le> b \<Longrightarrow> b \<le> c \<Longrightarrow>
   foldl (\<lambda>st j. add_mean (values ! j) st) (win_state values a b) [b..<c] = win_state values a c"
proof (induction c)
  case 0
  then show ?case by simp
next
  case (Suc c)
  show ?case
  proof (cases "b = Suc c")
    case True
    then show ?thesis by simp
  next
    case False
    with Suc.prems have bc: "b \<le> c" by simp
    with Suc.prems have ac: "a \<le> c" by simp
    from bc have "[b..<Suc c] = [b..<c] @ [c]" by simp
    then show ?thesis
      using Suc.IH [OF Suc.prems(1) bc] ac
      by (cases "values ! c") (simp_all add: win_state_def)
  qed
qed

lemma remove_mean_fold:
  "a \<le> a' \<Longrightarrow> a' \<le> b \<Longrightarrow>
   foldl (\<lambda>st j. remove_mean (values ! j) st) (win_state values a b) [a..<a'] = win_state values a' b"
proof (induction a')
  case 0
  then show ?case by simp
next
  case (Suc c)
  show ?case
  proof (cases "a = Suc c")
    case True
    then show ?thesis by simp
  next
    case False
    with Suc.prems have ac: "a \<le> c" by simp
    from Suc.prems have cb: "c < b" by simp
    from ac have "[a..<Suc c] = [a..<c] @ [c]" by simp
    moreover have "win_state values c b = add_mean (values ! c) (win_state values (Suc c) b)"
      using cb by (cases "values ! c") (simp_all add: win_state_def sum.atLeast_Suc_lessThan)
    ultimately show ?thesis
      using Suc.IH [OF ac] cb
      by (cases "values ! c"; cases "win_state values (Suc c) b") simp_all
  qed
qed

lemma win_state_empty: "win_state values a a = (0, 0)"
  by (simp add: win_state_def)

text \<open>
  The invariant of the loop: when position \<open>k\<close> is reached, the running count and sum are
  those of the window of position \<open>k - 1\<close>; so every output is computed from the contents
  of its own window.
\<close>

lemma roll_mean_loop_window:
  "k \<le> n \<Longrightarrow> (k > 0 \<Longrightarrow> st = win_state values (win_start W (k - 1)) (win_end (k - 1))) \<Longrightarrow>
   roll_mean_loop values W minp [k..<n] st =
     map (\<lambda>i. calc_mean minp (win_state values (win_start W i) (win_end i))) [k..<n]"
proof (induction "n - k" arbitrary: k st)
  case 0
  then show ?case by simp
next
  case (Suc m)
  then have kn: "k < n" by simp
  then have split: "[k..<n] = k # [Suc k..<n]" by (simp add: upt_conv_Cons)
  define st' where "st' = (if k = 0 \<or> win_start W k \<ge> win_end (k - 1)
                 then foldl (\<lambda>a j. add_mean (values ! j) a) (0, 0) [win_start W k..<win_end k]
                 else let st1 = foldl (\<lambda>a j. remove_mean (values ! j) a) st
                                  [win_start W (k - 1)..<win_start W k]
                      in foldl (\<lambda>a j. add_mean (values ! j) a) st1 [win_end (k - 1)..<win_end k])"
  have st'_eq: "st' = win_state values (win_start W k) (win_end k)"
  proof (cases "k = 0 \<or> win_start W k \<ge> win_end (k - 1)")
    case True
    have "win_start W k \<le> win_end k" by (simp add: win_start_def win_end_def)
    from add_mean_fold [OF le_refl this, of "values"] True show ?thesis
      by (simp add: st'_def win_state_empty)
  next
    case False
    then have k0: "k > 0" and ov: "win_start W k < win_end (k - 1)" by simp_all
    have st: "st = win_state values (win_start W (k - 1)) (win_end (k - 1))"
      using Suc.prems(2) k0 by simp
    have 1: "win_start W (k - 1) \<le> win_start W k" by (simp add: win_start_def)
    have 2: "win_start W k \<le> win_end (k - 1)" using ov by simp
    have 3: "win_end (k - 1) \<le> win_end k" by (simp add: win_end_def)
    show ?thesis
      using False remove_mean_fold [OF 1 2, of "values"] add_mean_fold [OF 2 3, of "values"]
      by (simp add: st'_def st Let_def)
  qed
  have "m = n - Suc k" using Suc.hyps(2) by simp
  from Suc.hyps(1) [OF this, of st'] kn st'_eq
  have IH: "roll_mean_loop values W minp [Suc k..<n] st' =
     map (\<lambda>i. calc_mean minp (win_state values (win_start W i) (win_end i))) [Suc k..<n]"
    by simp
  have "roll_mean_loop values W minp (k # [Suc k..<n]) st =
      calc_mean minp st' # roll_mean_loop values W minp [Suc k..<n] st'"
    by (simp add: st'_def Let_def)
  then show ?case using IH st'_eq split by simp
qed

lemma roll_mean_window:
  "roll_mean values W minp =
     map (\<lambda>i. calc_mean minp (win_state values (win_start W i) (win_end i))) [0..<length values]"
  unfolding roll_mean_def by (rule roll_mean_loop_window) simp_all

lemma length_roll_mean: "length (roll_mean values W minp) = length values"
  by (simp add: roll_mean_window)

lemma prep_values_Fin: "prep_values (map Fin xs) = map Some xs"
  by (simp add: prep_values_def)

lemma win_state_numeric:
  "b \<le> length xs \<Longrightarrow> win_state (map Some xs) a b = (int (b - a), \<Sum>j = a..<b. xs ! j)"
  by (simp add: win_state_def)

section \<open>The simple moving average\<close>

lemma roll_mean_numeric:
  "roll_mean (map Some xs) W minp ! i = calc_mean minp (int (win_end i - win_start W i), \<Sum>j = win_start W i..<win_end i. xs ! j)"
  if "i < length xs"
  using that by (simp add: roll_mean_window win_state_numeric win_end_def)



section \<open>Signal generation on short series, and purity\<close>

lemma sma_Inr: "0 \<le> w \<Longrightarrow> sma xs w = Inr (roll_mean (prep_values xs) (nat w) w)"
  by (simp add: sma_def rolling_mean_def)

lemma sma_Inl: "w < 0 \<Longrightarrow> sma xs w = Inl (ValueError ''window must be an integer 0 or greater'')"
  by (simp add: sma_def rolling_mean_def)

lemma getitem_present:
  "c \<in> set (columns d) \<Longrightarrow> \<exists>vs. getitem d c = Inr vs"
proof -
  assume "c \<in> set (columns d)"
  then have "map_of (fcols d) c \<noteq> None"
    by (simp add: columns_def map_of_eq_None_iff)
  then show ?thesis by (auto simp: getitem_def)
qed

lemma py_range_empty: "b \<le> a \<Longrightarrow> py_range a b = []"
  by (simp add: py_range_def)

lemma generate_signals_state: "snd (generate_signals s d) = s"
  by (simp add: generate_signals_def Let_def)

lemma generate_signals_few_rows_any:
  assumes "parameters s ''long_window'' = Some wl" and "int (len_frame d) \<le> wl"
    and "fst (generate_signals s d) = Inr sigs"
  shows "sigs = []"
  using assms
  by (auto simp: generate_signals_def Let_def bind_err_def get_parameter_def window_arg_def
      py_range_empty split: sum.splits option.splits)

lemma generate_signals_few_rows:
  assumes "parameters s ''long_window'' = Some wl" and "int (len_frame d) \<le> wl"
    and "parameters s ''short_window'' = Some ws" and "0 \<le> ws"
    and "''Close'' \<in> set (columns d)"
  shows "generate_signals s d = (Inr [], s)"
proof -
  from assms(5) obtain close where c: "getitem d ''Close'' = Inr close"
    using getitem_present by blast
  from assms(2) have wl: "0 \<le> wl" by simp
  show ?thesis
    using assms(1-4) c wl
    by (simp add: generate_signals_def Let_def bind_err_def get_parameter_def window_arg_def
        py_range_empty sma_Inr)
qed

text \<open>
  C8.  For the moving average crossover with long window \<open>Wl\<close>, \<^verbatim>\<open>generate_signals\<close> on a
  series with fewer than \<open>Wl\<close> rows returns the empty signal sequence.  The series has a
  Close column and the short window is a valid window (not negative), so that the averages
  can be computed at all.
\<close>
theorem generate_signals_short_series:
  assumes "parameters s ''long_window'' = Some wl" and "int (len_frame d) < wl"
    and "parameters s ''short_window'' = Some ws" and "0 \<le> ws"
    and "''Close'' \<in> set (columns d)"
  shows "fst (generate_signals s d) = Inr []"
  using generate_signals_few_rows [OF assms(1) _ assms(3-5)] assms(2) by simp

theorem generate_signals_short_series_witness:
  "parameters (MovingAverageCrossover_init 2 4) ''long_window'' = Some 4 \<and>
   int (len_frame ex_frame) < 4 \<and>
   parameters (MovingAverageCrossover_init 2 4) ''short_window'' = Some 2 \<and>
   ''Close'' \<in> set (columns ex_frame) \<and>
   fst (generate_signals (MovingAverageCrossover_init 2 4) ex_frame) = Inr []"
proof -
  have 1: "parameters (MovingAverageCrossover_init 2 4) ''long_window'' = Some 4"
    by (simp add: MovingAverageCrossover_init_def BaseStrategy_init_def)
  have 2: "int (len_frame ex_frame) < 4"
    by (simp add: len_frame_def ex_frame_def)
  have 3: "parameters (MovingAverageCrossover_init 2 4) ''short_window'' = Some 2"
    by (simp add: MovingAverageCrossover_init_def BaseStrategy_init_def)
  have 4: "(0::int) \<le> 2" by simp
  have 5: "''Close'' \<in> set (columns ex_frame)"
    by (simp add: columns_def ex_frame_def)
  from generate_signals_short_series [OF 1 2 3 4 5] 1 2 3 5 show ?thesis by simp
qed

text \<open>
  C7.  \<^verbatim>\<open>generate_signals\<close> is deterministic and pure.  A call leaves the strategy (name,
  parameters, bound series, initialized flag, collected signals) as it was.  Its result is
  determined by the input series and the parameters alone: any two strategies with the same
  parameters, whatever their names, bound series, flags and collected signals, give the
  identical result on the same series.  So a second call after the first gives the same
  signal sequence.
\<close>

theorem generate_signals_pure:
  "snd (generate_signals s d) = s
   \<and> (\<forall>s'. parameters s' = parameters s \<longrightarrow>
          fst (generate_signals s' d) = fst (generate_signals s d))
   \<and> fst (generate_signals (snd (generate_signals s d)) d) = fst (generate_signals s d)"
  by (simp add: generate_signals_def Let_def get_parameter_def)

theorem generate_signals_pure_witness:
  "parameters ex_other_strategy = parameters (MovingAverageCrossover_init 1 2)
   \<and> name ex_other_strategy \<noteq> name (MovingAverageCrossover_init 1 2)
   \<and> signals ex_other_strategy \<noteq> signals (MovingAverageCrossover_init 1 2)
   \<and> data ex_other_strategy \<noteq> data (MovingAverageCrossover_init 1 2)
   \<and> initialized ex_other_strategy \<noteq> initialized (MovingAverageCrossover_init 1 2)
   \<and> fst (generate_signals ex_other_strategy ex_prices)
       = fst (generate_signals (MovingAverageCrossover_init 1 2) ex_prices)
   \<and> snd (generate_signals ex_other_strategy ex_prices) = ex_other_strategy"
proof -
  let ?s = "MovingAverageCrossover_init 1 2"
  have p: "parameters ex_other_strategy = parameters ?s"
    by (simp add: ex_other_strategy_def MovingAverageCrossover_init_def BaseStrategy_init_def)
  have n: "name ex_other_strategy \<noteq> name ?s"
    by (simp add: ex_other_strategy_def MovingAverageCrossover_init_def BaseStrategy_init_def)
  have g: "signals ex_other_strategy \<noteq> signals ?s"
    by (simp add: ex_other_strategy_def MovingAverageCrossover_init_def BaseStrategy_init_def)
  have d: "data ex_other_strategy \<noteq> data ?s"
    by (simp add: ex_other_strategy_def MovingAverageCrossover_init_def BaseStrategy_init_def)
  have i: "initialized ex_other_strategy \<noteq> initialized ?s"
    by (simp add: ex_other_strategy_def MovingAverageCrossover_init_def BaseStrategy_init_def)
  from generate_signals_pure [of ?s ex_prices] p
  have r: "fst (generate_signals ex_other_strategy ex_prices) = fst (generate_signals ?s ex_prices)"
    by blast
  from generate_signals_pure [of ex_other_strategy ex_prices]
  have u: "snd (generate_signals ex_other_strategy ex_prices) = ex_other_strategy"
    by blast
  from p n g d i r u show ?thesis by blast
qed

section \<open>Validation of the input table\<close>

text \<open>
  C9.  \<^verbatim>\<open>validate_data\<close> never raises and returns true exactly when the five columns
  Open, High, Low, Close and Volume are all present.  The result is the same for any two
  tables with the same columns, whatever their values and timestamps; in particular a table
  without the Volume column gives false.
\<close>
theorem validate_data_columns:
  "validate_data s d =
     (Inr (''Open'' \<in> set (columns d) \<and> ''High'' \<in> set (columns d) \<and> ''Low'' \<in> set (columns d)
           \<and> ''Close'' \<in> set (columns d) \<and> ''Volume'' \<in> set (columns d)), s)
   \<and> (\<forall>s' d'. columns d' = columns d \<longrightarrow> fst (validate_data s' d') = fst (validate_data s d))
   \<and> (''Volume'' \<notin> set (columns d) \<longrightarrow> fst (validate_data s d) = Inr False)"
  by (simp add: validate_data_def)

theorem validate_data_columns_witness:
  "''Volume'' \<notin> set (columns ex_no_volume)
   \<and> fst (validate_data (MovingAverageCrossover_init 2 4) ex_no_volume) = Inr False
   \<and> fst (validate_data (MovingAverageCrossover_init 2 4) ex_ohlcv) = Inr True
   \<and> columns (ex_ohlcv\<lparr>findex := [1, 2]\<rparr>) = columns ex_ohlcv
   \<and> fst (validate_data (MovingAverageCrossover_init 20 50) (ex_ohlcv\<lparr>findex := [1, 2]\<rparr>)) = Inr True"
proof -
  have nv: "''Volume'' \<notin> set (columns ex_no_volume)"
    by (simp add: columns_def ex_no_volume_def)
  have c: "columns (ex_ohlcv\<lparr>findex := [1, 2]\<rparr>) = columns ex_ohlcv"
    by (simp add: columns_def)
  have cols: "columns ex_ohlcv = [''Open'', ''High'', ''Low'', ''Close'', ''Volume'']"
    by (simp add: columns_def ex_ohlcv_def)
  note t1 = validate_data_columns [of "MovingAverageCrossover_init 2 4" ex_no_volume]
  note t2 = validate_data_columns [of "MovingAverageCrossover_init 2 4" ex_ohlcv]
  from t1 nv have 1: "fst (validate_data (MovingAverageCrossover_init 2 4) ex_no_volume) = Inr False"
    by blast
  from t2 have 2: "fst (validate_data (MovingAverageCrossover_init 2 4) ex_ohlcv) = Inr True"
    by (simp add: cols)
  from t2 c have "fst (validate_data (MovingAverageCrossover_init 20 50) (ex_ohlcv\<lparr>findex := [1, 2]\<rparr>))
      = fst (validate_data (MovingAverageCrossover_init 2 4) ex_ohlcv)"
    by blast
  with nv 1 2 c show ?thesis by simp
qed

section \<open>Incremental update\<close>

lemma map_of_tabulate:
  "map_of (map (\<lambda>c. (c, f c)) xs) c = (if c \<in> set xs then Some (f c) else None)"
  by (induction xs) auto

lemma map_of_map_snd:
  "map_of (map (\<lambda>kv. (fst kv, g (snd kv))) xs) c = map_option g (map_of xs c)"
  by (induction xs) auto

lemma column_or_nan_to_frame_T:
  "column_or_nan (to_frame_T r) c = [case map_of (sitems r) c of None \<Rightarrow> NaN | Some v \<Rightarrow> v]"
  using map_of_map_snd [of "\<lambda>v. [v]" "sitems r" c]
  by (simp add: column_or_nan_def to_frame_T_def split: option.splits)

lemma findex_concat: "findex (concat_frames a b) = findex a @ findex b"
  by (simp add: concat_frames_def)

lemma columns_concat:
  "set (columns (concat_frames a b)) = set (columns a) \<union> set (columns b)"
  by (auto simp: concat_frames_def columns_def comp_def)

lemma map_of_concat:
  "map_of (fcols (concat_frames a b)) c =
     (if c \<in> set (columns a) \<union> set (columns b)
      then Some (column_or_nan a c @ column_or_nan b c) else None)"
proof -
  let ?names = "columns a @ filter (\<lambda>c. c \<notin> set (columns a)) (columns b)"
  have "fcols (concat_frames a b) = map (\<lambda>c. (c, column_or_nan a c @ column_or_nan b c)) ?names"
    by (simp only: concat_frames_def frame.simps)
  moreover have "set ?names = set (columns a) \<union> set (columns b)"
    by auto
  ultimately show ?thesis
    by (simp only: map_of_tabulate)
qed

lemma len_frame_tail_concat: "len_frame (tail 1 (pd_concat dopt (to_frame_T r))) = 1"
  by (cases dopt) (simp_all add: len_frame_def tail_def pd_concat_def findex_concat to_frame_T_def)

lemma columns_tail: "columns (tail n d) = columns d"
  by (simp add: tail_def columns_def comp_def)

lemma generate_signals_not_uninitialized:
  "fst (generate_signals s d) \<noteq> Inl (ValueError ''Strategy must be initialized before updating'')"
proof -
  have loop: "crossover_loop d sm lm is acc \<noteq> Inl (ValueError m)" for sm lm "is" acc m
  proof (induction "is" arbitrary: acc)
    case Nil
    then show ?case by simp
  next
    case (Cons i "is")
    have "signal_at d sm lm i \<noteq> Inl (ValueError m)"
      by (auto simp: signal_at_def bind_err_def iloc_def getitem_def
          split: sum.splits if_splits option.splits)
    with Cons show ?case
      by (auto split: sum.splits option.splits)
  qed
  show ?thesis
    using loop
    by (auto simp: generate_signals_def Let_def bind_err_def getitem_def window_arg_def
        sma_def rolling_mean_def split: sum.splits option.splits if_splits)
qed

text \<open>
  C3.  \<^verbatim>\<open>update\<close> before \<^verbatim>\<open>initialize\<close> raises the error for an operation out of order
  (a ValueError with the message of the uninitialized strategy), whatever the concrete
  strategy, and leaves the strategy as it was.  On an initialized strategy the call does not
  raise that error, and the bound series afterwards is the old one with exactly the new
  record appended: one more row, labelled by the record, every column extended by the
  record's value for it (NaN where the record has none).
\<close>
theorem update_before_initialize:
  "(\<not> initialized s \<longrightarrow>
      update gen s r = (Inl (ValueError ''Strategy must be initialized before updating''), s))
   \<and> (initialized s \<longrightarrow> data s = Some d \<longrightarrow>
        (\<exists>res d'. update generate_signals s r = (res, s\<lparr>data := Some d'\<rparr>)
           \<and> res \<noteq> Inl (ValueError ''Strategy must be initialized before updating'')
           \<and> findex d' = findex d @ [sname r]
           \<and> set (columns d') = set (columns d) \<union> fst ` set (sitems r)
           \<and> (\<forall>c \<in> set (columns d').
                 map_of (fcols d') c =
                   Some (column_or_nan d c @ [case map_of (sitems r) c of None \<Rightarrow> NaN | Some v \<Rightarrow> v]))))"
proof (intro conjI impI)
  assume "\<not> initialized s"
  then show "update gen s r = (Inl (ValueError ''Strategy must be initialized before updating''), s)"
    by (simp add: update_def)
next
  assume init: "initialized s" and dat: "data s = Some d"
  define d' where "d' = concat_frames d (to_frame_T r)"
  define s1 where "s1 = s\<lparr>data := Some d'\<rparr>"
  define g where "g = fst (generate_signals s1 (tail 1 d'))"
  define res :: "error + Signal option" where
    "res = (case g of Inl e \<Rightarrow> Inl e
            | Inr sigs \<Rightarrow> Inr (if sigs \<noteq> [] then Some (hd sigs) else None))"
  have gs: "generate_signals s1 (tail 1 d') = (g, s1)"
    by (simp add: g_def generate_signals_state prod_eq_iff)
  have upd: "update generate_signals s r = (res, s\<lparr>data := Some d'\<rparr>)"
    using init dat gs
    by (simp add: update_def pd_concat_def d'_def [symmetric] s1_def [symmetric] Let_def res_def
        split: sum.splits)
  have "g \<noteq> Inl (ValueError ''Strategy must be initialized before updating'')"
    unfolding g_def by (rule generate_signals_not_uninitialized)
  then have nres: "res \<noteq> Inl (ValueError ''Strategy must be initialized before updating'')"
    by (auto simp: res_def split: sum.splits)
  have idx: "findex d' = findex d @ [sname r]"
    by (simp add: d'_def findex_concat to_frame_T_def)
  have colsT: "set (columns (to_frame_T r)) = fst ` set (sitems r)"
    by (auto simp: columns_def to_frame_T_def comp_def)
  have cols: "set (columns d') = set (columns d) \<union> fst ` set (sitems r)"
    by (simp add: d'_def columns_concat colsT)
  have vals: "\<forall>c \<in> set (columns d'). map_of (fcols d') c =
        Some (column_or_nan d c @ [case map_of (sitems r) c of None \<Rightarrow> NaN | Some v \<Rightarrow> v])"
    using cols by (simp add: d'_def map_of_concat column_or_nan_to_frame_T colsT)
  from upd nres idx cols vals
  show "\<exists>res d'. update generate_signals s r = (res, s\<lparr>data := Some d'\<rparr>)
           \<and> res \<noteq> Inl (ValueError ''Strategy must be initialized before updating'')
           \<and> findex d' = findex d @ [sname r]
           \<and> set (columns d') = set (columns d) \<union> fst ` set (sitems r)
           \<and> (\<forall>c \<in> set (columns d').
                 map_of (fcols d') c =
                   Some (column_or_nan d c @ [case map_of (sitems r) c of None \<Rightarrow> NaN | Some v \<Rightarrow> v]))"
    by blast
qed


theorem update_before_initialize_witness:
  "\<not> initialized (MovingAverageCrossover_init 2 4)
   \<and> update generate_signals (MovingAverageCrossover_init 2 4) ex_record =
       (Inl (ValueError ''Strategy must be initialized before updating''),
        MovingAverageCrossover_init 2 4)
   \<and> initialized (snd (initialize (MovingAverageCrossover_init 2 4) ex_frame))
   \<and> data (snd (initialize (MovingAverageCrossover_init 2 4) ex_frame)) = Some ex_frame
   \<and> (\<exists>res d'. update generate_signals (snd (initialize (MovingAverageCrossover_init 2 4) ex_frame))
                   ex_record
                 = (res, (snd (initialize (MovingAverageCrossover_init 2 4) ex_frame))\<lparr>data := Some d'\<rparr>)
          \<and> res \<noteq> Inl (ValueError ''Strategy must be initialized before updating'')
          \<and> findex d' = [100, 101, 102, 103])"
proof -
  let ?s0 = "MovingAverageCrossover_init 2 4"
  let ?s1 = "snd (initialize ?s0 ex_frame)"
  have a: "\<not> initialized ?s0"
    by (simp add: MovingAverageCrossover_init_def BaseStrategy_init_def)
  have b: "initialized ?s1" by (simp add: initialize_def)
  have c: "data ?s1 = Some ex_frame" by (simp add: initialize_def)
  from update_before_initialize [of ?s0 generate_signals ex_record ex_frame] a
  have 1: "update generate_signals ?s0 ex_record =
       (Inl (ValueError ''Strategy must be initialized before updating''), ?s0)"
    by blast
  from update_before_initialize [of ?s1 generate_signals ex_record ex_frame] b c
  obtain res d' where
    "update generate_signals ?s1 ex_record = (res, ?s1\<lparr>data := Some d'\<rparr>)"
    "res \<noteq> Inl (ValueError ''Strategy must be initialized before updating'')"
    "findex d' = findex ex_frame @ [sname ex_record]"
    by blast
  then have 2: "\<exists>res d'. update generate_signals ?s1 ex_record = (res, ?s1\<lparr>data := Some d'\<rparr>)
          \<and> res \<noteq> Inl (ValueError ''Strategy must be initialized before updating'')
          \<and> findex d' = [100, 101, 102, 103]"
    by (auto simp: ex_frame_def ex_record_def)
  from a 1 b c 2 show ?thesis by blast
qed

text \<open>
  C10.  For the moving average crossover with long window \<open>Wl \<ge> 1\<close>, \<^verbatim>\<open>update\<close> on an
  initialized strategy never reports a signal: it runs \<^verbatim>\<open>generate_signals\<close> on the newest
  record alone, and the loop over \<open>range(Wl, 1)\<close> is empty.  Where the call does not raise
  (a Close column exists and the short window is a valid window) it returns none.
\<close>
theorem update_never_signals:
  assumes "initialized s" and "parameters s ''long_window'' = Some wl" and "1 \<le> wl"
  shows "(\<forall>sg. fst (update generate_signals s r) \<noteq> Inr (Some sg))
     \<and> (\<forall>ws. parameters s ''short_window'' = Some ws \<and> 0 \<le> ws
              \<and> ''Close'' \<in> set (columns (pd_concat (data s) (to_frame_T r)))
           \<longrightarrow> fst (update generate_signals s r) = Inr None)"
proof -
  define d where "d = pd_concat (data s) (to_frame_T r)"
  define s1 where "s1 = s\<lparr>data := Some d\<rparr>"
  have p: "parameters s1 = parameters s" by (simp add: s1_def)
  have len: "int (len_frame (tail 1 d)) \<le> wl"
    using assms(3) len_frame_tail_concat [of "data s" r] by (simp add: d_def)
  have wl: "parameters s1 ''long_window'' = Some wl" using assms(2) p by simp
  define g where "g = fst (generate_signals s1 (tail 1 d))"
  have gs: "generate_signals s1 (tail 1 d) = (g, s1)"
    by (simp add: g_def generate_signals_state prod_eq_iff)
  have upd: "fst (update generate_signals s r) =
      (case g of Inl e \<Rightarrow> Inl e | Inr sigs \<Rightarrow> Inr (if sigs \<noteq> [] then Some (hd sigs) else None))"
    using assms(1) gs
    by (simp add: update_def d_def [symmetric] s1_def [symmetric] Let_def split: sum.splits)
  have none: "\<And>sigs. g = Inr sigs \<Longrightarrow> sigs = []"
    using generate_signals_few_rows_any [OF wl len] by (simp add: g_def)
  have 1: "\<forall>sg. fst (update generate_signals s r) \<noteq> Inr (Some sg)"
    using none by (auto simp: upd split: sum.splits)
  have 2: "fst (update generate_signals s r) = Inr None"
    if "parameters s ''short_window'' = Some ws" "0 \<le> ws" "''Close'' \<in> set (columns d)" for ws
  proof -
    from that have "generate_signals s1 (tail 1 d) = (Inr [], s1)"
      using generate_signals_few_rows [OF wl len, of ws] p by (simp add: columns_tail)
    with gs have "g = Inr []" by simp
    then show ?thesis by (simp add: upd)
  qed
  from 1 2 show ?thesis unfolding d_def by blast
qed

theorem update_never_signals_witness:
  "initialized (snd (initialize (MovingAverageCrossover_init 1 1) ex_frame))
   \<and> parameters (snd (initialize (MovingAverageCrossover_init 1 1) ex_frame)) ''long_window'' = Some 1
   \<and> fst (update generate_signals (snd (initialize (MovingAverageCrossover_init 1 1) ex_frame))
            ex_record) = Inr None"
proof -
  let ?s = "snd (initialize (MovingAverageCrossover_init 1 1) ex_frame)"
  have a: "initialized ?s" by (simp add: initialize_def)
  have b: "parameters ?s ''long_window'' = Some 1"
    by (simp add: initialize_def MovingAverageCrossover_init_def BaseStrategy_init_def)
  have c: "(1::int) \<le> 1" by simp
  have d: "parameters ?s ''short_window'' = Some 1"
    by (simp add: initialize_def MovingAverageCrossover_init_def BaseStrategy_init_def)
  have e: "''Close'' \<in> set (columns (pd_concat (data ?s) (to_frame_T ex_record)))"
    by (simp add: initialize_def pd_concat_def columns_concat)
      (simp add: columns_def ex_frame_def)
  from update_never_signals [OF a b c, of ex_record] d e
  have "fst (update generate_signals ?s ex_record) = Inr None" by simp
  with a b show ?thesis by blast
qed

section \<open>The crossover rule\<close>

lemma f_lt_asym: "f_lt a b \<Longrightarrow> \<not> f_lt b a"
  by (cases a; cases b) auto

lemma f_lt_irrefl: "\<not> f_lt a a"
  by (cases a) auto

lemma iloc_nat: "i < length xs \<Longrightarrow> iloc xs (int i) = Inr (xs ! i)"
  by (simp add: iloc_def)

lemma iloc_pred: "1 \<le> i \<Longrightarrow> i < length xs \<Longrightarrow> iloc xs (int i - 1) = Inr (xs ! (i - 1))"
proof -
  assume a: "1 \<le> i" "i < length xs"
  then have "int i - 1 = int (i - 1)" by simp
  moreover from a have "i - 1 < length xs" by simp
  ultimately show ?thesis by (simp only: iloc_nat)
qed

lemma py_range_nat: "py_range (int a) (int b) = map int [a..<b]"
proof -
  have n: "nat (int b - int a) = b - a" by linarith
  show ?thesis
  proof (rule nth_equalityI)
    show "length (py_range (int a) (int b)) = length (map int [a..<b])"
      by (simp add: py_range_def n)
  next
    fix i assume "i < length (py_range (int a) (int b))"
    then have "i < b - a" by (simp add: py_range_def n)
    then show "py_range (int a) (int b) ! i = map int [a..<b] ! i"
      by (simp add: py_range_def n)
  qed
qed

lemma getitem_length:
  assumes "wf_frame d" and "getitem d c = Inr vs"
  shows "length vs = length (findex d)"
proof -
  from assms(2) have "map_of (fcols d) c = Some vs"
    by (simp add: getitem_def split: option.splits)
  then have "(c, vs) \<in> set (fcols d)" by (rule map_of_SomeD)
  with assms(1) show ?thesis
    by (auto simp: wf_frame_def list_all_iff)
qed

lemma length_sma: "sma xs w = Inr out \<Longrightarrow> length out = length xs"
  by (auto simp: sma_def rolling_mean_def length_roll_mean prep_values_def split: if_splits)

lemma signal_at_expected:
  assumes "getitem d ''Close'' = Inr close" and "1 \<le> i" and "i < length (findex d)"
    and "length close = length (findex d)" and "length short_ma = length (findex d)"
    and "length long_ma = length (findex d)"
  shows "(signal_at d short_ma long_ma (int i) = Inr None
            \<and> expected_signals_at d close short_ma long_ma i = [])
       \<or> (\<exists>sg. signal_at d short_ma long_ma (int i) = Inr (Some sg)
            \<and> expected_signals_at d close short_ma long_ma i = [sg])"
proof -
  have il: "iloc short_ma (int i) = Inr (short_ma ! i)" "iloc long_ma (int i) = Inr (long_ma ! i)"
    "iloc (findex d) (int i) = Inr (findex d ! i)" "iloc close (int i) = Inr (close ! i)"
    using assms by (simp_all add: iloc_nat)
  have ip: "iloc short_ma (int i - 1) = Inr (short_ma ! (i - 1))"
    "iloc long_ma (int i - 1) = Inr (long_ma ! (i - 1))"
    using assms by (simp_all add: iloc_pred)
  have excl: "\<not> (f_gt (short_ma ! i) (long_ma ! i) \<and> f_lt (short_ma ! i) (long_ma ! i))"
    using f_lt_asym by (auto simp: f_gt_def)
  show ?thesis
    using excl
    by (auto simp: signal_at_def bind_err_def il ip assms(1) expected_signals_at_def)
qed

lemma crossover_loop_expected:
  assumes "getitem d ''Close'' = Inr close"
    and "length close = length (findex d)" and "length short_ma = length (findex d)"
    and "length long_ma = length (findex d)"
    and "\<forall>i \<in> set ixs. 1 \<le> i \<and> i < length (findex d)"
  shows "crossover_loop d short_ma long_ma (map int ixs) acc =
           Inr (acc @ concat (map (expected_signals_at d close short_ma long_ma) ixs))"
  using assms(5)
proof (induction ixs arbitrary: acc)
  case Nil
  then show ?case by simp
next
  case (Cons i ixs)
  then have i: "1 \<le> i" "i < length (findex d)" by simp_all
  from Cons have IH: "\<And>acc. crossover_loop d short_ma long_ma (map int ixs) acc =
           Inr (acc @ concat (map (expected_signals_at d close short_ma long_ma) ixs))"
    by simp
  from signal_at_expected [OF assms(1) i assms(2-4)] show ?case
    by (auto simp: IH)
qed

text \<open>
  C1.  With short window \<open>Ws\<close> and long window \<open>Wl\<close>, \<^verbatim>\<open>generate_signals\<close> over a series of
  \<open>n\<close> rows returns, in order of the positions \<open>Wl \<le> i < n\<close>, a Buy exactly where
  \<open>SMA_s[i-1] \<le> SMA_l[i-1]\<close> and \<open>SMA_s[i] > SMA_l[i]\<close>, a Sell exactly where
  \<open>SMA_s[i-1] \<ge> SMA_l[i-1]\<close> and \<open>SMA_s[i] < SMA_l[i]\<close>, and nothing else.  Every signal
  carries the timestamp and the Close price of its position and strength one; where the two
  averages are equal at \<open>i\<close> nothing is emitted.
\<close>
theorem generate_signals_crossover:
  assumes "wf_frame d" and "getitem d ''Close'' = Inr close"
    and "parameters s ''short_window'' = Some ws" and "0 \<le> ws"
    and "parameters s ''long_window'' = Some wl" and "1 \<le> wl"
    and "sma close ws = Inr short_ma" and "sma close wl = Inr long_ma"
  shows "fst (generate_signals s d) =
           Inr (concat (map (expected_signals_at d close short_ma long_ma) [nat wl..<len_frame d]))
     \<and> (\<forall>i. short_ma ! i = long_ma ! i \<longrightarrow> expected_signals_at d close short_ma long_ma i = [])
     \<and> (\<forall>i sg. sg \<in> set (expected_signals_at d close short_ma long_ma i) \<longrightarrow>
           price sg = Some (close ! i) \<and> strength sg = Fin 1 \<and> timestamp sg = findex d ! i)"
proof -
  have lc: "length close = length (findex d)"
    using assms(1,2) by (rule getitem_length)
  have ls: "length short_ma = length (findex d)" using length_sma [OF assms(7)] lc by simp
  have ll: "length long_ma = length (findex d)" using length_sma [OF assms(8)] lc by simp
  have rng: "py_range wl (int (len_frame d)) = map int [nat wl..<len_frame d]"
    using assms(6) py_range_nat [of "nat wl" "len_frame d"] by simp
  have bounds: "\<forall>i \<in> set [nat wl..<len_frame d]. 1 \<le> i \<and> i < length (findex d)"
    using assms(6) by (auto simp: len_frame_def)
  have loop: "crossover_loop d short_ma long_ma (py_range wl (int (len_frame d))) [] =
      Inr (concat (map (expected_signals_at d close short_ma long_ma) [nat wl..<len_frame d]))"
    unfolding rng using crossover_loop_expected [OF assms(2) lc ls ll bounds, of "[]"] by simp
  have 1: "fst (generate_signals s d) =
           Inr (concat (map (expected_signals_at d close short_ma long_ma) [nat wl..<len_frame d]))"
    using assms(2,3,5,7,8) loop
    by (simp add: generate_signals_def Let_def bind_err_def get_parameter_def window_arg_def)
  have 2: "\<forall>i. short_ma ! i = long_ma ! i \<longrightarrow> expected_signals_at d close short_ma long_ma i = []"
    by (simp add: expected_signals_at_def f_gt_def f_lt_irrefl)
  have 3: "\<forall>i sg. sg \<in> set (expected_signals_at d close short_ma long_ma i) \<longrightarrow>
           price sg = Some (close ! i) \<and> strength sg = Fin 1 \<and> timestamp sg = findex d ! i"
    by (auto simp: expected_signals_at_def split: if_splits)
  from 1 2 3 show ?thesis by blast
qed

theorem generate_signals_crossover_witness:
  "wf_frame ex_prices
   \<and> getitem ex_prices ''Close'' = Inr [Fin 10, Fin 10, Fin 9, Fin 11, Fin 13, Fin 8]
   \<and> parameters (MovingAverageCrossover_init 1 2) ''short_window'' = Some 1
   \<and> parameters (MovingAverageCrossover_init 1 2) ''long_window'' = Some 2
   \<and> sma [Fin 10, Fin 10, Fin 9, Fin 11, Fin 13, Fin 8] 1
        = Inr [Fin 10, Fin 10, Fin 9, Fin 11, Fin 13, Fin 8]
   \<and> sma [Fin 10, Fin 10, Fin 9, Fin 11, Fin 13, Fin 8] 2
        = Inr [NaN, Fin 10, Fin (19 / 2), Fin 10, Fin 12, Fin (21 / 2)]
   \<and> fst (generate_signals (MovingAverageCrossover_init 1 2) ex_prices) =
       Inr [\<lparr>timestamp = 102, symbol = ''AAPL'', signal_type = SELL,
              strength = Fin 1, price = Some (Fin 9), metadata = None\<rparr>,
            \<lparr>timestamp = 103, symbol = ''AAPL'', signal_type = BUY,
              strength = Fin 1, price = Some (Fin 11), metadata = None\<rparr>,
            \<lparr>timestamp = 105, symbol = ''AAPL'', signal_type = SELL,
              strength = Fin 1, price = Some (Fin 8), metadata = None\<rparr>]"
proof -
  let ?close = "[Fin 10, Fin 10, Fin 9, Fin 11, Fin 13, Fin 8]"
  let ?sm = "[Fin 10, Fin 10, Fin 9, Fin 11, Fin 13, Fin 8]"
  let ?lm = "[NaN, Fin 10, Fin (19 / 2), Fin 10, Fin 12, Fin (21 / 2)]"
  let ?s = "MovingAverageCrossover_init 1 2"
  have 1: "wf_frame ex_prices" by (simp add: wf_frame_def ex_prices_def)
  have 2: "getitem ex_prices ''Close'' = Inr ?close" by (simp add: getitem_def ex_prices_def)
  have 3: "parameters ?s ''short_window'' = Some 1"
    by (simp add: MovingAverageCrossover_init_def BaseStrategy_init_def)
  have 4: "(0::int) \<le> 1" by simp
  have 5: "parameters ?s ''long_window'' = Some 2"
    by (simp add: MovingAverageCrossover_init_def BaseStrategy_init_def)
  have 6: "(1::int) \<le> 2" by simp
  have 7: "sma ?close 1 = Inr ?sm" by code_simp
  have 8: "sma ?close 2 = Inr ?lm" by code_simp
  have len: "len_frame ex_prices = 6" by (simp add: len_frame_def ex_prices_def)
  have upt: "[nat 2..<6] = [2, 3, 4, 5]" by code_simp
  have ev: "concat (map (expected_signals_at ex_prices ?close ?sm ?lm) [2, 3, 4, 5]) =
       [\<lparr>timestamp = 102, symbol = ''AAPL'', signal_type = SELL,
              strength = Fin 1, price = Some (Fin 9), metadata = None\<rparr>,
            \<lparr>timestamp = 103, symbol = ''AAPL'', signal_type = BUY,
              strength = Fin 1, price = Some (Fin 11), metadata = None\<rparr>,
            \<lparr>timestamp = 105, symbol = ''AAPL'', signal_type = SELL,
              strength = Fin 1, price = Some (Fin 8), metadata = None\<rparr>]"
    by (simp add: expected_signals_at_def f_gt_def f_ge_def ex_prices_def)
  from generate_signals_crossover [OF 1 2 3 4 5 6 7 8]
  have "fst (generate_signals ?s ex_prices) =
      Inr (concat (map (expected_signals_at ex_prices ?close ?sm ?lm) [nat 2..<len_frame ex_prices]))"
    by blast
  then have "fst (generate_signals ?s ex_prices) =
      Inr (concat (map (expected_signals_at ex_prices ?close ?sm ?lm) [2, 3, 4, 5]))"
    by (simp only: len upt)
  with ev 1 2 3 5 7 8 show ?thesis by simp
qed

section \<open>Simple and cumulative returns\<close>

lemma ffill_loop_numeric: "ffill_loop prev (map Fin xs) = map Fin xs"
  by (induction xs arbitrary: prev) (simp_all add: is_nan_def)

lemma zip_butlast_Cons: "zip xs (butlast (p # xs)) = zip xs (p # xs)"
  by (induction xs arbitrary: p) simp_all

lemma pct_change_numeric:
  "pct_change (map Fin (p # ps)) =
     NaN # map (\<lambda>(x, y). f_sub (f_div (Fin x) (Fin y)) (Fin 1)) (zip ps (p # ps))"
proof -
  have "zip (map Fin ps) (butlast (map Fin (p # ps))) = zip (map Fin ps) (map Fin (p # ps))"
    using zip_butlast_Cons [of "map Fin ps" "Fin p"] by simp
  also have "\<dots> = map (\<lambda>(x, y). (Fin x, Fin y)) (zip ps (p # ps))"
    by (simp only: zip_map_map)
  finally have z: "zip (map Fin ps) (butlast (map Fin (p # ps))) =
      map (\<lambda>(x, y). (Fin x, Fin y)) (zip ps (p # ps))" .
  have "ffill (map Fin (p # ps)) = map Fin (p # ps)"
    unfolding ffill_def by (rule ffill_loop_numeric)
  then show ?thesis
    using z
    by (simp add: pct_change_def shift1_def Let_def f_sub_def split_def comp_def
        del: butlast.simps)
qed

lemma cumprod_loop_ratios:
  assumes "p \<noteq> 0" and "\<forall>x \<in> set ps. x \<noteq> 0"
  shows "cumprod_loop (Fin a)
           (map (\<lambda>r. f_add (Fin 1) r)
              (map (\<lambda>(x, y). f_sub (f_div (Fin x) (Fin y)) (Fin 1)) (zip ps (p # ps))))
         = map (\<lambda>x. Fin (a * x / p)) ps"
  using assms
proof (induction ps arbitrary: p a)
  case Nil
  then show ?case by simp
next
  case (Cons x xs)
  then have x: "x \<noteq> 0" and xs: "\<forall>y \<in> set xs. y \<noteq> 0" by simp_all
  have step: "f_add (Fin 1) (f_sub (f_div (Fin x) (Fin p)) (Fin 1)) = Fin (x / p)"
    using Cons.prems(1) by (simp add: f_sub_def)
  have IH: "cumprod_loop (Fin (a * (x / p)))
           (map (\<lambda>r. f_add (Fin 1) r)
              (map (\<lambda>(x, y). f_sub (f_div (Fin x) (Fin y)) (Fin 1)) (zip xs (x # xs))))
         = map (\<lambda>y. Fin (a * (x / p) * y / x)) xs"
    by (rule Cons.IH [OF x xs])
  have "map (\<lambda>y. Fin (a * (x / p) * y / x)) xs = map (\<lambda>y. Fin (a * y / p)) xs"
    using x by simp
  with IH step show ?case
    by (simp add: is_nan_def)
qed

text \<open>
  C5.  For a price series whose elements are all nonzero, the cumulative returns of its
  simple returns are, at every position \<open>i \<ge> 1\<close>, \<open>prices[i] / prices[0] - 1\<close> (over exact
  arithmetic).
\<close>
theorem cumulative_simple_returns_roundtrip:
  assumes "\<forall>x \<in> set prices. x \<noteq> 0" and "1 \<le> i" and "i < length prices"
  shows "cumulative_returns (simple_returns (map Fin prices)) ! i
           = Fin (prices ! i / prices ! 0 - 1)"
proof -
  from assms(3) obtain p ps where pr: "prices = p # ps" by (cases prices) auto
  with assms(1) have p: "p \<noteq> 0" and ps: "\<forall>x \<in> set ps. x \<noteq> 0" by simp_all
  let ?R = "map (\<lambda>(x, y). f_sub (f_div (Fin x) (Fin y)) (Fin 1)) (zip ps (p # ps))"
  have sr: "simple_returns (map Fin (p # ps)) = NaN # ?R"
    by (simp only: simple_returns_def pct_change_numeric)
  have cr: "cumulative_returns (NaN # ?R) =
      NaN # map (\<lambda>v. f_sub v (Fin 1)) (cumprod_loop (Fin 1) (map (\<lambda>r. f_add (Fin 1) r) ?R))"
    by (simp add: cumulative_returns_def cumprod_def is_nan_def f_sub_def)
  have "map (\<lambda>v. f_sub v (Fin 1)) (map (\<lambda>x. Fin (1 * x / p)) ps) = map (\<lambda>x. Fin (x / p - 1)) ps"
    by (simp add: f_sub_def)
  with cumprod_loop_ratios [OF p ps, of 1] sr cr
  have "cumulative_returns (simple_returns (map Fin (p # ps))) =
          NaN # map (\<lambda>x. Fin (x / p - 1)) ps"
    by (simp only:)
  moreover from assms(2,3) pr have "i - 1 < length ps" by simp
  ultimately show ?thesis
    using assms(2) pr by (simp add: nth_Cons')
qed

theorem cumulative_simple_returns_roundtrip_witness:
  "(1::nat) \<le> 3 \<and> 3 < length [2, 4, 1, 5 :: real]
   \<and> cumulative_returns (simple_returns (map Fin [2, 4, 1, 5])) ! 3 = Fin (3 / 2)"
proof -
  have 1: "\<forall>x \<in> set [2, 4, 1, 5 :: real]. x \<noteq> 0" by simp
  have 2: "(1::nat) \<le> 3" by simp
  have 3: "3 < length [2, 4, 1, 5 :: real]" by simp
  from cumulative_simple_returns_roundtrip [OF 1 2 3]
  have "cumulative_returns (simple_returns (map Fin [2, 4, 1, 5])) ! 3 = Fin (3 / 2)"
    by simp
  with 2 3 show ?thesis by blast
qed

section \<open>The exponential moving average\<close>

lemma history_den_Suc: "history_den q (Suc i) = q * history_den q i + 1"
proof -
  have "(\<Sum>j\<le>i. q ^ (Suc i - j)) = (\<Sum>j\<le>i. q * q ^ (i - j))"
    by (rule sum.cong) (simp_all add: Suc_diff_le)
  then show ?thesis
    by (simp add: history_den_def sum_distrib_left)
qed

lemma history_num_Suc: "history_num q xs (Suc i) = q * history_num q xs i + xs ! Suc i"
proof -
  have "(\<Sum>j\<le>i. q ^ (Suc i - j) * xs ! j) = (\<Sum>j\<le>i. q * (q ^ (i - j) * xs ! j))"
    by (rule sum.cong) (simp_all add: Suc_diff_le)
  then show ?thesis
    by (simp add: history_num_def sum_distrib_left)
qed

lemma history_den_ge1: "0 \<le> q \<Longrightarrow> 1 \<le> history_den q i"
proof (induction i)
  case 0
  then show ?case by (simp add: history_den_def)
next
  case (Suc i)
  then have "0 \<le> q * history_den q i" by simp
  then show ?case by (simp add: history_den_Suc)
qed

lemma history_num_prefix:
  "i < length pre \<Longrightarrow> history_num q (pre @ zs) i = history_num q pre i"
  unfolding history_num_def by (rule sum.cong) (simp_all add: nth_append)

lemma ewm_loop_history:
  assumes "0 \<le> q" and "pre \<noteq> []" and "D = history_den q (length pre - 1)"
    and "w = history_num q pre (length pre - 1) / D" and "1 \<le> nobs"
  shows "ewm_loop q 1 True 1 (map Some ys) (Some w) D nobs =
           map (\<lambda>i. Fin (weighted_history q (pre @ ys) i)) [length pre..<length pre + length ys]"
  using assms(2-5)
proof (induction ys arbitrary: pre w D nobs)
  case Nil
  then show ?case by simp
next
  case (Cons y ys)
  define n where "n = length pre"
  from Cons.prems(1) have n: "n = Suc (n - 1)" by (simp add: n_def)
  define ow where "ow = D * q"
  define w' where "w' = (if w \<noteq> y then (ow * w + 1 * y) / (ow + 1) else w)"
  have Dpos: "1 \<le> D" using Cons.prems(2) history_den_ge1 [OF assms(1)] by simp
  have "0 \<le> D * q" using Dpos assms(1) by simp
  then have ow1: "0 < ow + 1" by (simp add: ow_def)
  have wD: "w * D = history_num q pre (n - 1)"
    using Cons.prems(3) Dpos by (simp add: n_def)
  have den: "history_den q n = ow + 1"
    using history_den_Suc [of q "n - 1"] n Cons.prems(2) by (simp add: ow_def n_def mult.commute)
  have "history_num q (pre @ [y]) n = q * history_num q (pre @ [y]) (n - 1) + (pre @ [y]) ! n"
    using history_num_Suc [of q "pre @ [y]" "n - 1"] n by simp
  also have "history_num q (pre @ [y]) (n - 1) = history_num q pre (n - 1)"
    using Cons.prems(1) by (intro history_num_prefix) (simp add: n_def)
  also have "(pre @ [y]) ! n = y" by (simp add: n_def)
  finally have num: "history_num q (pre @ [y]) n = ow * w + y"
    using wD by (simp add: ow_def mult.assoc mult.commute)
  have w'_eq: "w' = history_num q (pre @ [y]) n / history_den q n"
  proof (cases "w = y")
    case True
    then have "ow * w + y = w * (ow + 1)" by (simp add: algebra_simps)
    with ow1 True show ?thesis by (simp add: w'_def num den)
  next
    case False
    then show ?thesis by (simp add: w'_def num den)
  qed
  have nobs': "1 \<le> nobs + 1" using Cons.prems(4) by simp
  have IH: "ewm_loop q 1 True 1 (map Some ys) (Some w') (ow + 1) (nobs + 1) =
      map (\<lambda>i. Fin (weighted_history q ((pre @ [y]) @ ys) i))
        [length (pre @ [y])..<length (pre @ [y]) + length ys]"
    using Cons.prems(4) by (intro Cons.IH) (simp_all add: den [symmetric] w'_eq n_def)
  have head: "weighted_history q (pre @ y # ys) n = w'"
    using history_num_prefix [of n "pre @ [y]" q ys]
    by (simp add: weighted_history_def w'_eq n_def)
  have "n < n + length (y # ys)" by simp
  from upt_conv_Cons [OF this]
  have upt: "[n..<n + length (y # ys)] = n # [Suc n..<Suc n + length ys]"
    by (simp del: upt_Suc)
  have step: "ewm_loop q 1 True 1 (map Some (y # ys)) (Some w) D nobs =
      Fin w' # ewm_loop q 1 True 1 (map Some ys) (Some w') (ow + 1) (nobs + 1)"
    using nobs' by (simp add: w'_def ow_def Let_def)
  show ?case
    unfolding n_def [symmetric] upt step using IH head by (simp add: n_def)
qed

lemma ewm_alpha_eq: "1 \<le> S \<Longrightarrow> ewm_alpha S = 2 / (real_of_int S + 1)"
  by (simp add: ewm_alpha_def field_simps)

text \<open>
  C2 (as amended).  For every span \<open>S \<ge> 1\<close> and every numeric series, the exponential
  moving average computed by the implementation is the weighted history with
  \<open>\<alpha> = 2 / (S + 1)\<close>: \<open>output[i]\<close> is the sum of \<open>(1 - \<alpha>)^(i-j) * input[j]\<close> over
  \<open>j \<le> i\<close> divided by the sum of the weights \<open>(1 - \<alpha>)^(i-j)\<close>.
\<close>
theorem ema_weighted_history:
  assumes "1 \<le> S"
  shows "ema (map Fin xs) S =
           Inr (map (\<lambda>i. Fin (weighted_history (1 - 2 / (real_of_int S + 1)) xs i)) [0..<length xs])"
proof (cases xs)
  case Nil
  with assms show ?thesis
    by (simp add: ema_def ewm_mean_def ewm_def prep_values_def)
next
  case (Cons x rest)
  let ?q = "1 - 2 / (real_of_int S + 1)"
  have q: "0 \<le> ?q" using assms by (simp add: field_simps)
  have loop: "ewm_loop ?q 1 True 1 (map Some rest) (Some x) 1 1 =
      map (\<lambda>i. Fin (weighted_history ?q ([x] @ rest) i)) [length [x]..<length [x] + length rest]"
    by (rule ewm_loop_history [OF q]) (simp_all add: history_den_def history_num_def)
  have w0: "weighted_history ?q (x # rest) 0 = x"
    by (simp add: weighted_history_def history_den_def history_num_def)
  have upt: "[0..<length (x # rest)] = 0 # [Suc 0..<Suc (length rest)]"
    by (simp add: upt_conv_Cons del: upt_Suc)
  show ?thesis
    using assms loop w0
    unfolding Cons upt
    by (simp add: ema_def ewm_mean_def ewm_def prep_values_Fin [of "x # rest", simplified]
        ewm_alpha_eq)
qed

theorem ema_weighted_history_witness:
  "(1::int) \<le> 2 \<and> ema (map Fin [0, 1]) 2 = Inr [Fin 0, Fin (3 / 4)]"
proof -
  have h: "(1::int) \<le> 2" by simp
  have upt: "[0..<length [0, 1 :: real]] = [0, 1]" by (simp add: upt_conv_Cons)
  from ema_weighted_history [OF h, of "[0, 1]"]
  have "ema (map Fin [0, 1]) 2 = Inr [Fin 0, Fin (3 / 4)]"
    unfolding upt by (simp add: weighted_history_def history_num_def history_den_def)
  with h show ?thesis by blast
qed

text \<open>
  The weighted history is not the reference recursion: for span 2 and the series 0, 1 the
  implementation gives 3/4 at position 1, the recursion 2/3.
\<close>

theorem ema_recursion_counterexample:
  "ema (map Fin [0, 1]) 2 = Inr [Fin 0, Fin (3 / 4)]
   \<and> map Fin (ema_reference [0, 1] 2) = [Fin 0, Fin (2 / 3)]
   \<and> ema (map Fin [0, 1]) 2 \<noteq> Inr (map Fin (ema_reference [0, 1] 2))"
  by (simp add: ema_def ewm_mean_def ewm_def ewm_alpha_def prep_values_def ema_reference_def Let_def)

section \<open>The relative strength index\<close>

lemma diff_numeric:
  "diff (map Fin (x # rest)) = NaN # map (\<lambda>(a, b). Fin (a - b)) (zip rest (x # rest))"
proof -
  have "zip (map Fin rest) (butlast (map Fin (x # rest))) = zip (map Fin rest) (map Fin (x # rest))"
    using zip_butlast_Cons [of "map Fin rest" "Fin x"] by simp
  also have "\<dots> = map (\<lambda>(a, b). (Fin a, Fin b)) (zip rest (x # rest))"
    by (simp only: zip_map_map)
  finally have z: "zip (map Fin rest) (butlast (map Fin (x # rest))) =
      map (\<lambda>(a, b). (Fin a, Fin b)) (zip rest (x # rest))" .
  show ?thesis
    using z
    by (simp add: diff_def shift1_def f_sub_def split_def comp_def del: butlast.simps)
qed

lemma gain_input:
  "where_else (\<lambda>d. f_gt d (Fin 0)) (Fin 0) (diff (map Fin xs)) = map Fin (gains xs)"
proof (cases xs)
  case Nil
  then show ?thesis by (simp add: gains_def diff_def shift1_def where_else_def)
next
  case (Cons x rest)
  show ?thesis
    unfolding Cons diff_numeric
    by (simp add: gains_def where_else_def f_gt_def split_def)
qed

lemma loss_input:
  "map f_neg (where_else (\<lambda>d. f_lt d (Fin 0)) (Fin 0) (diff (map Fin xs))) = map Fin (losses xs)"
proof (cases xs)
  case Nil
  then show ?thesis by (simp add: losses_def diff_def shift1_def where_else_def)
next
  case (Cons x rest)
  show ?thesis
    unfolding Cons diff_numeric
    by (simp add: losses_def where_else_def split_def)
qed

lemma length_gains: "length (gains xs) = length xs"
  by (cases xs) (simp_all add: gains_def)

lemma length_losses: "length (losses xs) = length xs"
  by (cases xs) (simp_all add: losses_def)

lemma gains_nonneg: "g \<in> set (gains xs) \<Longrightarrow> 0 \<le> g"
  by (cases xs) (auto simp: gains_def split: if_splits)

lemma zip_constant:
  assumes "\<forall>y \<in> set (x # rest). y = c" and "(a, b) \<in> set (zip rest (x # rest))"
  shows "a = c \<and> b = c"
proof -
  from assms(2) have "a \<in> set rest" by (rule set_zip_leftD)
  then have "a \<in> set (x # rest)" by simp
  moreover from assms(2) have "b \<in> set (x # rest)" by (rule set_zip_rightD)
  ultimately show ?thesis using assms(1) by blast
qed

lemma gains_constant:
  assumes "\<forall>x \<in> set xs. x = c" and "g \<in> set (gains xs)"
  shows "g = 0"
proof (cases xs)
  case Nil
  with assms(2) show ?thesis by (simp add: gains_def)
next
  case (Cons x rest)
  with assms(1) have all: "\<forall>y \<in> set (x # rest). y = c" by simp
  have "map (\<lambda>(a, b). if a - b > 0 then a - b else 0) (zip rest (x # rest))
      = map (\<lambda>p. 0 :: real) (zip rest (x # rest))"
  proof (rule map_cong [OF refl])
    fix p assume p: "p \<in> set (zip rest (x # rest))"
    obtain a b where ab: "p = (a, b)" by (cases p)
    with p zip_constant [OF all, of a b] have "a = c \<and> b = c" by simp
    with ab show "(case p of (a, b) \<Rightarrow> if a - b > 0 then a - b else 0) = (0 :: real)" by simp
  qed
  with assms(2) Cons show ?thesis
    by (auto simp: gains_def)
qed

lemma losses_constant:
  assumes "\<forall>x \<in> set xs. x = c" and "l \<in> set (losses xs)"
  shows "l = 0"
proof (cases xs)
  case Nil
  with assms(2) show ?thesis by (simp add: losses_def)
next
  case (Cons x rest)
  with assms(1) have all: "\<forall>y \<in> set (x # rest). y = c" by simp
  have "map (\<lambda>(a, b). if a - b < 0 then b - a else 0) (zip rest (x # rest))
      = map (\<lambda>p. 0 :: real) (zip rest (x # rest))"
  proof (rule map_cong [OF refl])
    fix p assume p: "p \<in> set (zip rest (x # rest))"
    obtain a b where ab: "p = (a, b)" by (cases p)
    with p zip_constant [OF all, of a b] have "a = c \<and> b = c" by simp
    with ab show "(case p of (a, b) \<Rightarrow> if a - b < 0 then b - a else 0) = (0 :: real)" by simp
  qed
  with assms(2) Cons show ?thesis
    by (auto simp: losses_def)
qed

lemma losses_nonneg: "l \<in> set (losses xs) \<Longrightarrow> 0 \<le> l"
  by (cases xs) (auto simp: losses_def split: if_splits)


lemma rsi_gain_numeric:
  "0 \<le> W \<Longrightarrow> rsi_gain (map Fin xs) W = Inr (roll_mean (map Some (gains xs)) (nat W) W)"
  by (simp add: rsi_gain_def gain_input rolling_mean_def prep_values_Fin)

lemma rsi_loss_numeric:
  "0 \<le> W \<Longrightarrow> rsi_loss (map Fin xs) W = Inr (roll_mean (map Some (losses xs)) (nat W) W)"
  by (simp add: rsi_loss_def loss_input rolling_mean_def prep_values_Fin)

lemma window_sum_nonneg:
  assumes "\<And>v. v \<in> set vs \<Longrightarrow> 0 \<le> (v :: real)" and "b \<le> length vs"
  shows "0 \<le> (\<Sum>j = a..<b. vs ! j)"
proof (rule sum_nonneg)
  fix j assume "j \<in> {a..<b}"
  with assms(2) have "vs ! j \<in> set vs" by simp
  then show "0 \<le> vs ! j" by (rule assms(1))
qed

lemma window_sum_zero:
  assumes "\<And>v. v \<in> set vs \<Longrightarrow> v = (0 :: real)" and "b \<le> length vs"
  shows "(\<Sum>j = a..<b. vs ! j) = 0"
proof (rule sum.neutral, rule ballI)
  fix j assume "j \<in> {a..<b}"
  with assms(2) have "vs ! j \<in> set vs" by simp
  then show "vs ! j = 0" by (rule assms(1))
qed

lemma rsi_value_zero_loss:
  "0 \<le> v \<Longrightarrow>
   f_sub (Fin 100) (f_div (Fin 100) (f_add (Fin 1) (f_div (Fin v) (Fin 0))))
     = (if v = 0 then NaN else Fin 100)"
  by (cases "v = 0") (simp_all add: signed_inf_def f_sub_def)

text \<open>
  C6 (as amended).  For every valid window (\<open>W \<ge> 0\<close>) and every numeric series, \<^verbatim>\<open>rsi\<close>
  returns a series aligned with its input and does not raise.  At every position where the
  rolling mean of the losses is zero, the mean of the gains is a number \<open>g \<ge> 0\<close>, and the
  output is missing (NaN) when \<open>g = 0\<close> and is 100 when \<open>g > 0\<close>.  In particular, for a
  constant price series every output position is missing.
\<close>
theorem rsi_zero_loss:
  assumes "0 \<le> W"
  shows "\<exists>gain loss out.
           rsi_gain (map Fin xs) W = Inr gain \<and> rsi_loss (map Fin xs) W = Inr loss
         \<and> rsi (map Fin xs) W = Inr out \<and> length out = length xs
         \<and> (\<forall>i < length xs. loss ! i = Fin 0 \<longrightarrow>
               (\<exists>g. 0 \<le> g \<and> gain ! i = Fin g \<and> out ! i = (if g = 0 then NaN else Fin 100)))
         \<and> ((\<forall>x \<in> set xs. x = c) \<longrightarrow> (\<forall>i < length xs. out ! i = NaN))"
proof -
  let ?h = "\<lambda>r. f_sub (Fin 100) (f_div (Fin 100) (f_add (Fin 1) r))"
  let ?gain = "roll_mean (map Some (gains xs)) (nat W) W"
  let ?loss = "roll_mean (map Some (losses xs)) (nat W) W"
  let ?out = "map ?h (map2 f_div ?gain ?loss)"
  let ?cnt = "\<lambda>i. int (win_end i - win_start (nat W) i)"
  let ?G = "\<lambda>i. \<Sum>j = win_start (nat W) i..<win_end i. gains xs ! j"
  let ?L = "\<lambda>i. \<Sum>j = win_start (nat W) i..<win_end i. losses xs ! j"
  have g: "rsi_gain (map Fin xs) W = Inr ?gain" using assms by (rule rsi_gain_numeric)
  have l: "rsi_loss (map Fin xs) W = Inr ?loss" using assms by (rule rsi_loss_numeric)
  have r: "rsi (map Fin xs) W = Inr ?out" by (simp add: rsi_def g l)
  have len: "length ?out = length xs"
    by (simp add: length_roll_mean length_gains length_losses)
  have gi: "?gain ! i = calc_mean W (?cnt i, ?G i)" if "i < length xs" for i
    using that by (simp add: roll_mean_numeric length_gains)
  have li: "?loss ! i = calc_mean W (?cnt i, ?L i)" if "i < length xs" for i
    using that by (simp add: roll_mean_numeric length_losses)
  have oi: "?out ! i = ?h (f_div (?gain ! i) (?loss ! i))" if "i < length xs" for i
    using that by (simp add: length_roll_mean length_gains length_losses)
  have Gpos: "0 \<le> ?G i" if "i < length xs" for i
    using that by (intro window_sum_nonneg gains_nonneg) (simp_all add: win_end_def length_gains)
  have zero: "\<exists>g. 0 \<le> g \<and> ?gain ! i = Fin g \<and> ?out ! i = (if g = 0 then NaN else Fin 100)"
    if i: "i < length xs" and z: "?loss ! i = Fin 0" for i
  proof -
    define k where "k = ?cnt i"
    have gk: "?gain ! i = calc_mean W (k, ?G i)" unfolding k_def by (rule gi [OF i])
    have lk: "?loss ! i = calc_mean W (k, ?L i)" unfolding k_def by (rule li [OF i])
    from z lk have c: "W \<le> k \<and> 0 < k"
      by (simp split: if_splits)
    then have gv: "?gain ! i = Fin (?G i / real_of_int k)"
      using gk by simp
    have nn: "0 \<le> ?G i / real_of_int k"
      using Gpos [OF i] c by simp
    have "?out ! i = ?h (f_div (Fin (?G i / real_of_int k)) (Fin 0))"
      using oi [OF i] gv z by simp
    also have "\<dots> = (if ?G i / real_of_int k = 0 then NaN else Fin 100)"
      using nn by (rule rsi_value_zero_loss)
    finally show ?thesis using gv nn by blast
  qed
  have const: "?out ! i = NaN" if cst: "\<forall>x \<in> set xs. x = c" and i: "i < length xs" for i
  proof -
    have G0: "?G i = 0"
      using i by (intro window_sum_zero gains_constant [OF cst]) (simp_all add: win_end_def length_gains)
    have L0: "?L i = 0"
      using i by (intro window_sum_zero losses_constant [OF cst]) (simp_all add: win_end_def length_losses)
    have "f_div (?gain ! i) (?loss ! i) = NaN"
      by (simp add: gi [OF i] li [OF i] G0 L0 signed_inf_def)
    then show ?thesis using oi [OF i] by (simp add: f_sub_def)
  qed
  from g l r len zero const show ?thesis by blast
qed

theorem rsi_zero_loss_witness:
  "(0::int) \<le> 2
   \<and> rsi_loss (map Fin [1, 2, 3]) 2 = Inr [NaN, Fin 0, Fin 0]
   \<and> rsi_gain (map Fin [1, 2, 3]) 2 = Inr [NaN, Fin (1 / 2), Fin 1]
   \<and> (\<exists>out. rsi (map Fin [1, 2, 3]) 2 = Inr out \<and> length out = 3 \<and> out ! 1 = Fin 100)
   \<and> (\<exists>out. rsi (map Fin [5, 5, 5]) 2 = Inr out \<and> length out = 3
          \<and> out ! 0 = NaN \<and> out ! 1 = NaN \<and> out ! 2 = NaN)"
proof -
  have h: "(0::int) \<le> 2" by simp
  have l: "rsi_loss (map Fin [1, 2, 3]) 2 = Inr [NaN, Fin 0, Fin 0]" by code_simp
  have g: "rsi_gain (map Fin [1, 2, 3]) 2 = Inr [NaN, Fin (1 / 2), Fin 1]" by code_simp
  from rsi_zero_loss [OF h, of "[1, 2, 3]" 0] obtain out where
    o: "rsi (map Fin [1, 2, 3]) 2 = Inr out" "length out = length [1, 2, 3 :: real]"
    and z: "\<forall>i < length [1, 2, 3 :: real]. [NaN, Fin 0, Fin 0] ! i = Fin 0 \<longrightarrow>
          (\<exists>g. 0 \<le> g \<and> [NaN, Fin (1 / 2), Fin 1] ! i = Fin g
               \<and> out ! i = (if g = 0 then NaN else Fin 100))"
    unfolding l g by blast
  from z [rule_format, of 1] obtain v where
    v: "[NaN, Fin (1 / 2), Fin 1] ! 1 = Fin v" "out ! 1 = (if v = 0 then NaN else Fin 100)"
    by auto
  from v(1) have "v = 1 / 2" by simp
  with v(2) have "out ! 1 = Fin 100" by simp
  with o have 1: "\<exists>out. rsi (map Fin [1, 2, 3]) 2 = Inr out \<and> length out = 3 \<and> out ! 1 = Fin 100"
    by simp
  from rsi_zero_loss [OF h, of "[5, 5, 5]" 5] obtain out' where
    o': "rsi (map Fin [5, 5, 5]) 2 = Inr out'" "length out' = length [5, 5, 5 :: real]"
    and c: "(\<forall>x \<in> set [5, 5, 5 :: real]. x = 5) \<longrightarrow> (\<forall>i < length [5, 5, 5 :: real]. out' ! i = NaN)"
    by blast
  from c have "\<forall>i < 3. out' ! i = NaN" by simp
  then have "out' ! 0 = NaN \<and> out' ! 1 = NaN \<and> out' ! 2 = NaN" by simp
  with o' have 2: "\<exists>out. rsi (map Fin [5, 5, 5]) 2 = Inr out \<and> length out = 3
          \<and> out ! 0 = NaN \<and> out ! 1 = NaN \<and> out ! 2 = NaN"
    by simp
  from h l g 1 2 show ?thesis by blast
qed

text \<open>
  A zero mean loss does not make the output missing: for the rising series 1, 2, 3 and
  window 2 the mean loss is zero at positions 1 and 2, and the output there is 100.
\<close>

theorem rsi_zero_loss_counterexample:
  "rsi_loss (map Fin [1, 2, 3]) 2 = Inr [NaN, Fin 0, Fin 0]
   \<and> rsi (map Fin [1, 2, 3]) 2 = Inr [NaN, Fin 100, Fin 100]"
  by code_simp

end
